theory Spec2Isabelle
  imports Main
begin

section \<open>Data model of the aadgraph permission resource\<close>

text \<open>
  \<^verbatim>\<open>graphrbac.OAuth2Permission\<close>: every field of the SDK struct is a pointer, so every
  field is optional here.
\<close>

record OAuth2Permission =
  AdminConsentDescription :: "string option"
  AdminConsentDisplayName :: "string option"
  perm_ID :: "string option"
  IsEnabled :: "bool option"
  perm_Type :: "string option"
  UserConsentDescription :: "string option"
  UserConsentDisplayName :: "string option"
  perm_Value :: "string option"

text \<open>
  \<^verbatim>\<open>graphrbac.Application\<close>, restricted to the one field the resource reads and
  rewrites. A nil slice pointer is the empty collection.
\<close>

record Application =
  Oauth2Permissions :: "OAuth2Permission list"

text \<open>\<^verbatim>\<open>graph.OAuth2PermissionId\<close>, with the two fields the resource reads.\<close>

record OAuth2PermissionId =
  ObjectId :: string
  PermissionId :: string

text \<open>Errors of the \<^verbatim>\<open>graph\<close> package.\<close>

datatype graph_error =
    AlreadyExistsError string
  | NotFoundError string
  | MalformedIdentifier string

text \<open>
  Every \<^verbatim>\<open>fmt.Errorf\<close> and \<^verbatim>\<open>tf.ImportAsExistsError\<close> of
  \<^verbatim>\<open>application_oauth2_permission_resource.go\<close>, one constructor per return.
\<close>

datatype error =
    GeneratingUUID string
  | ApplicationNotFound string
  | RetrievingApplication string
  | ImportAsExists string string
  | AddingPermission graph_error
  | PermissionNotFound string string
  | UpdatingPermission graph_error
  | PatchingApplication string
  | ParsingPermissionId graph_error
  | IdentifyingPermission graph_error
  | DisablingPermission graph_error
  | RemovingPermission graph_error

subsection \<open>Composite identifier\<close>

text \<open>
  Modelled from the spec: \<^verbatim>\<open>graph.OAuth2PermissionIdFrom\<close>, the method
  \<^verbatim>\<open>String\<close> and \<^verbatim>\<open>graph.ParseOAuth2PermissionId\<close> live in the \<^verbatim>\<open>graph\<close>
  package, which is outside the sources at hand. The specification describes a
  delimiter-joined encoding whose parser fails when the delimiter is absent or either part
  is empty. It names no delimiter; the slash is taken. The parser cuts at the first
  delimiter. The constructor and \<^verbatim>\<open>String\<close> return no error at their call sites.
\<close>

definition id_delimiter :: char where
  "id_delimiter = CHR ''/''"

definition OAuth2PermissionIdFrom :: "string \<Rightarrow> string \<Rightarrow> OAuth2PermissionId" where
  "OAuth2PermissionIdFrom objectId permissionId =
     \<lparr>ObjectId = objectId, PermissionId = permissionId\<rparr>"

definition id_String :: "OAuth2PermissionId \<Rightarrow> string" where
  "id_String i = ObjectId i @ id_delimiter # PermissionId i"

definition ParseOAuth2PermissionId :: "string \<Rightarrow> graph_error + OAuth2PermissionId" where
  "ParseOAuth2PermissionId idString =
     (let parent = takeWhile (\<lambda>c. c \<noteq> id_delimiter) idString;
          rest = dropWhile (\<lambda>c. c \<noteq> id_delimiter) idString
      in case rest of
           [] \<Rightarrow> Inl (MalformedIdentifier idString)
         | _ # sub \<Rightarrow>
             if parent = [] \<or> sub = [] then Inl (MalformedIdentifier idString)
             else Inr \<lparr>ObjectId = parent, PermissionId = sub\<rparr>)"


subsection \<open>Collection reconciler\<close>

text \<open>
  Modelled from the spec: the five functions of the \<^verbatim>\<open>graph\<close> package that work on the
  permission collection are outside the sources at hand. Each follows the specification of
  the collection reconciler: find by id; add, failing with \<^verbatim>\<open>AlreadyExists\<close> on a
  duplicate id and appending otherwise; update, failing with \<^verbatim>\<open>NotFound\<close> when the id is
  absent and replacing in place otherwise; disable, failing with \<^verbatim>\<open>NotFound\<close> when the
  id is absent and clearing the enabled flag otherwise; remove, excluding the entry. The
  result types are the ones the call sites use.
\<close>

definition OAuth2PermissionFindById ::
  "Application \<Rightarrow> string \<Rightarrow> graph_error + OAuth2Permission option" where
  "OAuth2PermissionFindById app pid =
     Inr (find (\<lambda>p. perm_ID p = Some pid) (Oauth2Permissions app))"

definition OAuth2PermissionAdd ::
  "OAuth2Permission list \<Rightarrow> OAuth2Permission \<Rightarrow> graph_error + OAuth2Permission list" where
  "OAuth2PermissionAdd permissions permission =
     (case perm_ID permission of
        None \<Rightarrow> Inr (permissions @ [permission])
      | Some pid \<Rightarrow>
          if list_ex (\<lambda>p. perm_ID p = Some pid) permissions
          then Inl (AlreadyExistsError pid)
          else Inr (permissions @ [permission]))"

definition OAuth2PermissionUpdate ::
  "OAuth2Permission list \<Rightarrow> OAuth2Permission \<Rightarrow> graph_error + OAuth2Permission list" where
  "OAuth2PermissionUpdate permissions permission =
     (if list_ex (\<lambda>p. perm_ID p = perm_ID permission) permissions
      then Inr (map (\<lambda>p. if perm_ID p = perm_ID permission then permission else p) permissions)
      else Inl (NotFoundError (case perm_ID permission of None \<Rightarrow> [] | Some pid \<Rightarrow> pid)))"

definition OAuth2PermissionResultDisableById ::
  "OAuth2Permission list \<Rightarrow> string \<Rightarrow> graph_error + OAuth2Permission list" where
  "OAuth2PermissionResultDisableById permissions pid =
     (if list_ex (\<lambda>p. perm_ID p = Some pid) permissions
      then Inr (map (\<lambda>p. if perm_ID p = Some pid then p\<lparr>IsEnabled := Some False\<rparr> else p)
                  permissions)
      else Inl (NotFoundError pid))"

definition OAuth2PermissionResultRemoveById ::
  "OAuth2Permission list \<Rightarrow> string \<Rightarrow> graph_error + OAuth2Permission list" where
  "OAuth2PermissionResultRemoveById permissions pid =
     Inr (filter (\<lambda>p. perm_ID p \<noteq> Some pid) permissions)"

section \<open>The remote service, the lock registry and the tracked resource\<close>

text \<open>
  The outcome of \<^verbatim>\<open>client.Get\<close>: the application, or an error whose response is
  a 404 (\<^verbatim>\<open>utils.ResponseWasNotFound\<close>), or any other error.
\<close>

datatype get_response = GetOk Application | GetNotFound | GetError

text \<open>
  \<^verbatim>\<open>meta.(*clients.AadClient)\<close>: the applications client and the UUID generator. The
  remote service is a state of type \<open>'r\<close>: \<^verbatim>\<open>Get\<close> reads it, \<^verbatim>\<open>Patch\<close> returns whether
  the write succeeded and the state it leaves. \<^verbatim>\<open>uuid.GenerateUUID\<close> is \<open>None\<close> when
  it fails.
\<close>

record 'r AadClient =
  GenerateUUID :: "string option"
  client_Get :: "'r \<Rightarrow> string \<Rightarrow> get_response"
  client_Patch :: "'r \<Rightarrow> string \<Rightarrow> OAuth2Permission list \<Rightarrow> bool \<times> 'r"

text \<open>The calls of the \<^verbatim>\<open>graph\<close> reconciler, as they show in the trace.\<close>

datatype reconcile_op = OpAdd | OpFindById | OpUpdate | OpDisableById | OpRemoveById

text \<open>
  What an operation does to the outside, in order: taking and releasing a named lock,
  fetching the application, calling the reconciler, patching the application (with the
  collection sent and whether the service accepted it).
\<close>

datatype event =
    LockByName string string
  | UnlockByName string string
  | ClientGet string
  | Reconcile reconcile_op
  | ClientPatch string "OAuth2Permission list" bool

record 'r world =
  remote :: 'r
  trace :: "event list"

definition emit :: "event \<Rightarrow> 'r world \<Rightarrow> 'r world" where
  "emit e w = w\<lparr>trace := trace w @ [e]\<rparr>"

text \<open>
  The constant \<^verbatim>\<open>resourceApplicationName\<close> is declared outside the sources at hand; it
  is the resource type under which every sub-resource of an application locks.
\<close>

definition resourceApplicationName :: string where
  "resourceApplicationName = ''azuread_application''"

text \<open>
  \<^verbatim>\<open>schema.ResourceData\<close> for this resource: the tracked id, the new-resource flag and
  the nine schema fields (\<^verbatim>\<open>type\<close> and \<^verbatim>\<open>value\<close> renamed).
\<close>

record ResourceData =
  rd_Id :: string
  rd_IsNewResource :: bool
  application_object_id :: string
  admin_consent_description :: string
  admin_consent_display_name :: string
  is_enabled :: bool
  permission_id :: string
  permission_type :: string
  user_consent_description :: string
  user_consent_display_name :: string
  permission_value :: string

text \<open>\<^verbatim>\<open>d.Set\<close> of a pointer stores the zero value for nil.\<close>

definition str_of :: "string option \<Rightarrow> string" where
  "str_of v = (case v of None \<Rightarrow> [] | Some s \<Rightarrow> s)"

definition bool_of :: "bool option \<Rightarrow> bool" where
  "bool_of v = (case v of None \<Rightarrow> False | Some b \<Rightarrow> b)"

section \<open>Read\<close>

definition applicationOAuth2PermissionResourceRead ::
  "'r AadClient \<Rightarrow> ResourceData \<Rightarrow> 'r world \<Rightarrow> error option \<times> ResourceData \<times> 'r world" where
  "applicationOAuth2PermissionResourceRead meta d w =
     (case ParseOAuth2PermissionId (rd_Id d) of
        Inl err \<Rightarrow> (Some (ParsingPermissionId err), d, w)
      | Inr i \<Rightarrow>
          (let w1 = emit (ClientGet (ObjectId i)) w in
           case client_Get meta (remote w1) (ObjectId i) of
             GetNotFound \<Rightarrow> (None, d\<lparr>rd_Id := []\<rparr>, w1)
           | GetError \<Rightarrow> (Some (RetrievingApplication (ObjectId i)), d, w1)
           | GetOk app \<Rightarrow>
               (let w2 = emit (Reconcile OpFindById) w1 in
                case OAuth2PermissionFindById app (PermissionId i) of
                  Inl err \<Rightarrow> (Some (IdentifyingPermission err), d, w2)
                | Inr None \<Rightarrow> (None, d\<lparr>rd_Id := []\<rparr>, w2)
                | Inr (Some permission) \<Rightarrow>
                    (None,
                     d\<lparr>application_object_id := ObjectId i,
                       permission_id := PermissionId i,
                       admin_consent_description := str_of (AdminConsentDescription permission),
                       admin_consent_display_name := str_of (AdminConsentDisplayName permission),
                       is_enabled := bool_of (IsEnabled permission),
                       permission_type := str_of (perm_Type permission),
                       user_consent_description := str_of (UserConsentDescription permission),
                       user_consent_display_name := str_of (UserConsentDisplayName permission),
                       permission_value := str_of (perm_Value permission)\<rparr>,
                     w2))))"

section \<open>Create and update\<close>

text \<open>
  Lines 104 to 112: the permission id of the configuration when it is set
  (\<^verbatim>\<open>d.GetOk\<close> is false on the empty string), a generated UUID otherwise.
\<close>

definition resolve_permission_id :: "'r AadClient \<Rightarrow> ResourceData \<Rightarrow> error + string" where
  "resolve_permission_id meta d =
     (if permission_id d \<noteq> [] then Inr (permission_id d)
      else case GenerateUUID meta of
             None \<Rightarrow> Inl (GeneratingUUID (application_object_id d))
           | Some pid \<Rightarrow> Inr pid)"

text \<open>Lines 114 to 123: the candidate permission, every pointer set.\<close>

definition candidate_permission :: "ResourceData \<Rightarrow> string \<Rightarrow> OAuth2Permission" where
  "candidate_permission d permissionId =
     \<lparr>AdminConsentDescription = Some (admin_consent_description d),
      AdminConsentDisplayName = Some (admin_consent_display_name d),
      perm_ID = Some permissionId,
      IsEnabled = Some (is_enabled d),
      perm_Type = Some (permission_type d),
      UserConsentDescription = Some (user_consent_description d),
      UserConsentDisplayName = Some (user_consent_display_name d),
      perm_Value = Some (permission_value d)\<rparr>"

text \<open>Lines 160 to 169: the writeback, then the tracked id and the final read.\<close>

definition createUpdate_patch ::
  "'r AadClient \<Rightarrow> ResourceData \<Rightarrow> OAuth2PermissionId \<Rightarrow> OAuth2Permission list \<Rightarrow> 'r world
     \<Rightarrow> error option \<times> ResourceData \<times> 'r world" where
  "createUpdate_patch meta d i newPermissions w =
     (case client_Patch meta (remote w) (ObjectId i) newPermissions of
        (False, r) \<Rightarrow>
          (Some (PatchingApplication (ObjectId i)), d,
           emit (ClientPatch (ObjectId i) newPermissions False) (w\<lparr>remote := r\<rparr>))
      | (True, r) \<Rightarrow>
          applicationOAuth2PermissionResourceRead meta (d\<lparr>rd_Id := id_String i\<rparr>)
            (emit (ClientPatch (ObjectId i) newPermissions True) (w\<lparr>remote := r\<rparr>)))"

text \<open>Lines 130 to 169: what runs while the lock is held.\<close>

definition createUpdate_locked ::
  "'r AadClient \<Rightarrow> ResourceData \<Rightarrow> OAuth2Permission \<Rightarrow> OAuth2PermissionId \<Rightarrow> 'r world
     \<Rightarrow> error option \<times> ResourceData \<times> 'r world" where
  "createUpdate_locked meta d permission i w =
     (let w1 = emit (ClientGet (ObjectId i)) w in
      case client_Get meta (remote w1) (ObjectId i) of
        GetNotFound \<Rightarrow> (Some (ApplicationNotFound (ObjectId i)), d, w1)
      | GetError \<Rightarrow> (Some (RetrievingApplication (ObjectId i)), d, w1)
      | GetOk app \<Rightarrow>
          if rd_IsNewResource d then
            (let w2 = emit (Reconcile OpAdd) w1 in
             case OAuth2PermissionAdd (Oauth2Permissions app) permission of
               Inl (AlreadyExistsError x) \<Rightarrow>
                 (Some (ImportAsExists ''azuread_application_oauth2_permission'' (id_String i)),
                  d, w2)
             | Inl err \<Rightarrow> (Some (AddingPermission err), d, w2)
             | Inr newPermissions \<Rightarrow> createUpdate_patch meta d i newPermissions w2)
          else
            (let w2 = emit (Reconcile OpFindById) w1 in
             case OAuth2PermissionFindById app (PermissionId i) of
               Inr (Some existing) \<Rightarrow>
                 (let w3 = emit (Reconcile OpUpdate) w2 in
                  case OAuth2PermissionUpdate (Oauth2Permissions app) permission of
                    Inl err \<Rightarrow> (Some (UpdatingPermission err), d, w3)
                  | Inr newPermissions \<Rightarrow> createUpdate_patch meta d i newPermissions w3)
             | _ \<Rightarrow> (Some (PermissionNotFound (PermissionId i) (ObjectId i)), d, w2)))"

text \<open>
  The deferred \<^verbatim>\<open>tf.UnlockByName\<close> runs on every return that follows
  \<^verbatim>\<open>tf.LockByName\<close>.
\<close>

definition unlock_after ::
  "string \<Rightarrow> string \<Rightarrow> error option \<times> ResourceData \<times> 'r world
     \<Rightarrow> error option \<times> ResourceData \<times> 'r world" where
  "unlock_after name key res =
     (case res of (err, d, w) \<Rightarrow> (err, d, emit (UnlockByName name key) w))"

definition applicationOAuth2PermissionResourceCreateUpdate ::
  "'r AadClient \<Rightarrow> ResourceData \<Rightarrow> 'r world \<Rightarrow> error option \<times> ResourceData \<times> 'r world" where
  "applicationOAuth2PermissionResourceCreateUpdate meta d w =
     (case resolve_permission_id meta d of
        Inl err \<Rightarrow> (Some err, d, w)
      | Inr permissionId \<Rightarrow>
          (let permission = candidate_permission d permissionId;
               i = OAuth2PermissionIdFrom (application_object_id d) permissionId
           in unlock_after resourceApplicationName (ObjectId i)
                (createUpdate_locked meta d permission i
                   (emit (LockByName resourceApplicationName (ObjectId i)) w))))"

section \<open>Delete\<close>

text \<open>Lines 255 to 268: the removal, computed from the collection fetched at line 230.\<close>

definition delete_remove ::
  "'r AadClient \<Rightarrow> ResourceData \<Rightarrow> OAuth2PermissionId \<Rightarrow> Application \<Rightarrow> 'r world
     \<Rightarrow> error option \<times> ResourceData \<times> 'r world" where
  "delete_remove meta d i app w =
     (let w1 = emit (Reconcile OpRemoveById) w in
      case OAuth2PermissionResultRemoveById (Oauth2Permissions app) (PermissionId i) of
        Inl err \<Rightarrow> (Some (RemovingPermission err), d, w1)
      | Inr newPermissions \<Rightarrow>
          (case client_Patch meta (remote w1) (ObjectId i) newPermissions of
             (False, r) \<Rightarrow>
               (Some (PatchingApplication (ObjectId i)), d,
                emit (ClientPatch (ObjectId i) newPermissions False) (w1\<lparr>remote := r\<rparr>))
           | (True, r) \<Rightarrow>
               (None, d,
                emit (ClientPatch (ObjectId i) newPermissions True) (w1\<lparr>remote := r\<rparr>))))"

text \<open>Lines 229 to 268: what runs while the lock is held.\<close>

definition delete_locked ::
  "'r AadClient \<Rightarrow> ResourceData \<Rightarrow> OAuth2PermissionId \<Rightarrow> 'r world
     \<Rightarrow> error option \<times> ResourceData \<times> 'r world" where
  "delete_locked meta d i w =
     (let w1 = emit (ClientGet (ObjectId i)) w in
      case client_Get meta (remote w1) (ObjectId i) of
        GetNotFound \<Rightarrow> (None, d, w1)
      | GetError \<Rightarrow> (Some (RetrievingApplication (ObjectId i)), d, w1)
      | GetOk app \<Rightarrow>
          (let w2 = emit (Reconcile OpDisableById) w1 in
           case OAuth2PermissionResultDisableById (Oauth2Permissions app) (PermissionId i) of
             Inl err \<Rightarrow> (Some (DisablingPermission err), d, w2)
           | Inr newPermissions \<Rightarrow>
               (case client_Patch meta (remote w2) (ObjectId i) newPermissions of
                  (False, r) \<Rightarrow>
                    (Some (PatchingApplication (ObjectId i)), d,
                     emit (ClientPatch (ObjectId i) newPermissions False) (w2\<lparr>remote := r\<rparr>))
                | (True, r) \<Rightarrow>
                    delete_remove meta d i app
                      (emit (ClientPatch (ObjectId i) newPermissions True)
                         (w2\<lparr>remote := r\<rparr>)))))"

definition applicationOAuth2PermissionResourceDelete ::
  "'r AadClient \<Rightarrow> ResourceData \<Rightarrow> 'r world \<Rightarrow> error option \<times> ResourceData \<times> 'r world" where
  "applicationOAuth2PermissionResourceDelete meta d w =
     (case ParseOAuth2PermissionId (rd_Id d) of
        Inl err \<Rightarrow> (Some (ParsingPermissionId err), d, w)
      | Inr i \<Rightarrow>
          unlock_after resourceApplicationName (ObjectId i)
            (delete_locked meta d i
               (emit (LockByName resourceApplicationName (ObjectId i)) w)))"

section \<open>The multi-user lookup of the msgraph service\<close>

text \<open>
  \<^verbatim>\<open>models.User\<close>, with the ten fields that \<^verbatim>\<open>usersDataRead\<close> reads; all are
  pointers. The map built for each user at lines 205 to 215 holds the same ten fields, so
  an entry of the \<^verbatim>\<open>users\<close> attribute is the record itself.
\<close>

record User =
  AccountEnabled :: "bool option"
  DisplayName :: "string option"
  Mail :: "string option"
  MailNickname :: "string option"
  user_ID :: "string option"
  OnPremisesImmutableId :: "string option"
  OnPremisesSamAccountName :: "string option"
  OnPremisesUserPrincipalName :: "string option"
  UsageLocation :: "string option"
  UserPrincipalName :: "string option"

text \<open>
  The users client: \<^verbatim>\<open>Get\<close> by object id and \<^verbatim>\<open>List\<close> by filter, each returning
  the remote diagnostic on the left when it fails.
\<close>

record UsersClient =
  users_Get :: "string \<Rightarrow> string + User"
  users_List :: "string \<Rightarrow> string + User list"

text \<open>
  The returns of \<^verbatim>\<open>usersDataRead\<close>, and the panic of dereferencing a nil pointer.
  \<^verbatim>\<open>h.Write\<close> of a \<^verbatim>\<open>hash.Hash\<close> never returns an error, so the return at line 221
  has no constructor.
\<close>

datatype users_error =
    FindingUserWithID string string
  | FindingUserWithEmailAlias string string
  | NoUserWithMailNickname string
  | IdentifyingUserWithUPN string string
  | NoUserWithUPN string
  | UnexpectedNumberOfUsers nat nat
  | NullIdOrUpn User
  | NilPointerDereference

record UsersResourceData =
  ud_Id :: string
  object_ids :: "string list"
  mail_nicknames :: "string list"
  user_principal_names :: "string list"
  ignore_missing :: bool
  users :: "User list"

text \<open>\<^verbatim>\<open>fmt.Sprintf("mailNickname eq '%s'", v)\<close> and its sibling.\<close>

definition mailNickname_filter :: "string \<Rightarrow> string" where
  "mailNickname_filter v = ''mailNickname eq '' @ [CHR 0x27] @ v @ [CHR 0x27]"

definition userPrincipalName_filter :: "string \<Rightarrow> string" where
  "userPrincipalName_filter v = ''userPrincipalName eq '' @ [CHR 0x27] @ v @ [CHR 0x27]"

text \<open>Lines 135 to 145, with \<^verbatim>\<open>users\<close> as the accumulator.\<close>

fun object_ids_loop ::
  "UsersClient \<Rightarrow> bool \<Rightarrow> string list \<Rightarrow> User list \<Rightarrow> users_error + User list" where
  "object_ids_loop client ignoreMissing [] us = Inr us"
| "object_ids_loop client ignoreMissing (v # vs) us =
     (case users_Get client v of
        Inl err \<Rightarrow>
          if ignoreMissing then object_ids_loop client ignoreMissing vs us
          else Inl (FindingUserWithID v err)
      | Inr user \<Rightarrow> object_ids_loop client ignoreMissing vs (us @ [user]))"

text \<open>Lines 148 to 165.\<close>

fun mail_nicknames_loop ::
  "UsersClient \<Rightarrow> bool \<Rightarrow> string list \<Rightarrow> User list \<Rightarrow> users_error + User list" where
  "mail_nicknames_loop client ignoreMissing [] us = Inr us"
| "mail_nicknames_loop client ignoreMissing (v # vs) us =
     (case users_List client (mailNickname_filter v) of
        Inl err \<Rightarrow>
          if ignoreMissing then mail_nicknames_loop client ignoreMissing vs us
          else Inl (FindingUserWithEmailAlias v err)
      | Inr [] \<Rightarrow>
          if ignoreMissing then mail_nicknames_loop client ignoreMissing vs us
          else Inl (NoUserWithMailNickname v)
      | Inr (user # others) \<Rightarrow> mail_nicknames_loop client ignoreMissing vs (us @ [user]))"

text \<open>Lines 168 to 185.\<close>

fun upns_loop ::
  "UsersClient \<Rightarrow> bool \<Rightarrow> string list \<Rightarrow> User list \<Rightarrow> users_error + User list" where
  "upns_loop client ignoreMissing [] us = Inr us"
| "upns_loop client ignoreMissing (v # vs) us =
     (case users_List client (userPrincipalName_filter v) of
        Inl err \<Rightarrow>
          if ignoreMissing then upns_loop client ignoreMissing vs us
          else Inl (IdentifyingUserWithUPN v err)
      | Inr [] \<Rightarrow>
          if ignoreMissing then upns_loop client ignoreMissing vs us
          else Inl (NoUserWithUPN v)
      | Inr (user # others) \<Rightarrow> upns_loop client ignoreMissing vs (us @ [user]))"

text \<open>
  Lines 129 to 186: the users collected and the expected count. The first non-empty list
  of the three decides the branch.
\<close>

definition usersDataRead_lookup ::
  "UsersClient \<Rightarrow> UsersResourceData \<Rightarrow> users_error + User list \<times> nat" where
  "usersDataRead_lookup client d =
     (if object_ids d \<noteq> [] then
        (case object_ids_loop client (ignore_missing d) (object_ids d) [] of
           Inl err \<Rightarrow> Inl err
         | Inr us \<Rightarrow> Inr (us, length (object_ids d)))
      else if mail_nicknames d \<noteq> [] then
        (case mail_nicknames_loop client (ignore_missing d) (mail_nicknames d) [] of
           Inl err \<Rightarrow> Inl err
         | Inr us \<Rightarrow> Inr (us, length (mail_nicknames d)))
      else if user_principal_names d \<noteq> [] then
        (case upns_loop client (ignore_missing d) (user_principal_names d) [] of
           Inl err \<Rightarrow> Inl err
         | Inr us \<Rightarrow> Inr (us, length (user_principal_names d)))
      else Inr ([], 0))"

text \<open>
  Lines 196 to 217: the guard looks at \<^verbatim>\<open>ID\<close> and \<^verbatim>\<open>UserPrincipalName\<close> only;
  \<^verbatim>\<open>*u.MailNickname\<close> is dereferenced as it is.
\<close>

fun users_fields ::
  "User list \<Rightarrow> string list \<times> string list \<times> string list \<times> User list
     \<Rightarrow> users_error + string list \<times> string list \<times> string list \<times> User list" where
  "users_fields [] acc = Inr acc"
| "users_fields (u # us) (oids, upns, mailNicknames, userList) =
     (case (user_ID u, UserPrincipalName u) of
        (Some oid, Some upn) \<Rightarrow>
          (case MailNickname u of
             None \<Rightarrow> Inl NilPointerDereference
           | Some nick \<Rightarrow>
               users_fields us
                 (oids @ [oid], upns @ [upn], mailNicknames @ [nick], userList @ [u]))
      | _ \<Rightarrow> Inl (NullIdOrUpn u))"

text \<open>\<^verbatim>\<open>strings.Join\<close>.\<close>

fun join :: "string list \<Rightarrow> string \<Rightarrow> string" where
  "join [] sep = []"
| "join [x] sep = x"
| "join (x # y # ys) sep = x @ sep @ join (y # ys) sep"

text \<open>
  Lines 188 to 231. The parameter \<open>hash\<close> stands for the URL-safe base64 encoding of the
  SHA-1 digest.
\<close>

definition usersDataRead_finish ::
  "(string \<Rightarrow> string) \<Rightarrow> UsersResourceData \<Rightarrow> User list \<Rightarrow> nat
     \<Rightarrow> users_error + UsersResourceData" where
  "usersDataRead_finish hash d us expectedCount =
     (if \<not> ignore_missing d \<and> length us \<noteq> expectedCount
      then Inl (UnexpectedNumberOfUsers (length us) expectedCount)
      else case users_fields us ([], [], [], []) of
             Inl err \<Rightarrow> Inl err
           | Inr (oids, upns, mailNicknames, userList) \<Rightarrow>
               Inr (d\<lparr>ud_Id := ''users#'' @ hash (join upns ''-''),
                      object_ids := oids,
                      user_principal_names := upns,
                      mail_nicknames := mailNicknames,
                      users := userList\<rparr>))"

definition usersDataRead ::
  "(string \<Rightarrow> string) \<Rightarrow> UsersClient \<Rightarrow> UsersResourceData
     \<Rightarrow> users_error + UsersResourceData" where
  "usersDataRead hash client d =
     (case usersDataRead_lookup client d of
        Inl err \<Rightarrow> Inl err
      | Inr (us, expectedCount) \<Rightarrow> usersDataRead_finish hash d us expectedCount)"

section \<open>The group lookup of the aadgraph service\<close>

record ADGroup =
  ObjectID :: "string option"
  group_DisplayName :: "string option"

text \<open>
  The groups client. \<^verbatim>\<open>graph.GroupGetByDisplayName\<close> is outside the sources at hand
  and is a field of the client here, next to \<^verbatim>\<open>client.Get\<close>.
\<close>

record GroupsClient =
  GroupGetByDisplayName :: "string \<Rightarrow> string + ADGroup"
  groups_Get :: "string \<Rightarrow> string + ADGroup"

datatype groups_error =
    FindingGroupWithDisplayName string string
  | RetrievingGroupWithID string string
  | UnexpectedNumberOfGroups nat nat
  | NilObjectIDOrDisplayName ADGroup

record GroupsResourceData =
  gd_Id :: string
  gd_object_ids :: "string list"
  names :: "string list"

text \<open>Lines 60 to 66 and 69 to 76 of the groups data source.\<close>

fun names_loop ::
  "GroupsClient \<Rightarrow> string list \<Rightarrow> ADGroup list \<Rightarrow> groups_error + ADGroup list" where
  "names_loop client [] gs = Inr gs"
| "names_loop client (v # vs) gs =
     (case GroupGetByDisplayName client v of
        Inl err \<Rightarrow> Inl (FindingGroupWithDisplayName v err)
      | Inr g \<Rightarrow> names_loop client vs (gs @ [g]))"

fun oids_loop ::
  "GroupsClient \<Rightarrow> string list \<Rightarrow> ADGroup list \<Rightarrow> groups_error + ADGroup list" where
  "oids_loop client [] gs = Inr gs"
| "oids_loop client (v # vs) gs =
     (case groups_Get client v of
        Inl err \<Rightarrow> Inl (RetrievingGroupWithID v err)
      | Inr resp \<Rightarrow> oids_loop client vs (gs @ [resp]))"

definition GroupsDataRead_lookup ::
  "GroupsClient \<Rightarrow> GroupsResourceData \<Rightarrow> groups_error + ADGroup list \<times> nat" where
  "GroupsDataRead_lookup client d =
     (if names d \<noteq> [] then
        (case names_loop client (names d) [] of
           Inl err \<Rightarrow> Inl err
         | Inr gs \<Rightarrow> Inr (gs, length (names d)))
      else if gd_object_ids d \<noteq> [] then
        (case oids_loop client (gd_object_ids d) [] of
           Inl err \<Rightarrow> Inl err
         | Inr gs \<Rightarrow> Inr (gs, length (gd_object_ids d)))
      else Inr ([], 0))"

fun groups_fields ::
  "ADGroup list \<Rightarrow> string list \<times> string list \<Rightarrow> groups_error + string list \<times> string list" where
  "groups_fields [] acc = Inr acc"
| "groups_fields (u # us) (nms, oids) =
     (case (ObjectID u, group_DisplayName u) of
        (Some oid, Some nm) \<Rightarrow> groups_fields us (nms @ [nm], oids @ [oid])
      | _ \<Rightarrow> Inl (NilObjectIDOrDisplayName u))"

text \<open>Lines 79 to 102 of the groups data source.\<close>

definition GroupsDataRead_finish ::
  "(string \<Rightarrow> string) \<Rightarrow> GroupsResourceData \<Rightarrow> ADGroup list \<Rightarrow> nat
     \<Rightarrow> groups_error + GroupsResourceData" where
  "GroupsDataRead_finish hash d gs expectedCount =
     (if length gs \<noteq> expectedCount
      then Inl (UnexpectedNumberOfGroups (length gs) expectedCount)
      else case groups_fields gs ([], []) of
             Inl err \<Rightarrow> Inl err
           | Inr (nms, oids) \<Rightarrow>
               Inr (d\<lparr>gd_Id := ''groups#'' @ hash (join nms ''-''),
                      gd_object_ids := oids,
                      names := nms\<rparr>))"

definition GroupsDataRead ::
  "(string \<Rightarrow> string) \<Rightarrow> GroupsClient \<Rightarrow> GroupsResourceData
     \<Rightarrow> groups_error + GroupsResourceData" where
  "GroupsDataRead hash client d =
     (case GroupsDataRead_lookup client d of
        Inl err \<Rightarrow> Inl err
      | Inr (gs, expectedCount) \<Rightarrow> GroupsDataRead_finish hash d gs expectedCount)"

section \<open>Observing a run\<close>

text \<open>The three components of what a lifecycle operation returns.\<close>

definition err_of :: "error option \<times> ResourceData \<times> 'r world \<Rightarrow> error option" where
  "err_of res = fst res"

definition data_of :: "error option \<times> ResourceData \<times> 'r world \<Rightarrow> ResourceData" where
  "data_of res = fst (snd res)"

definition world_of :: "error option \<times> ResourceData \<times> 'r world \<Rightarrow> 'r world" where
  "world_of res = snd (snd res)"

text \<open>The events an operation added to the trace of the world it started in.\<close>

definition new_events ::
  "'r world \<Rightarrow> error option \<times> ResourceData \<times> 'r world \<Rightarrow> event list" where
  "new_events w res = drop (length (trace w)) (trace (world_of res))"

fun is_lock_event :: "event \<Rightarrow> bool" where
  "is_lock_event (LockByName n k) = True"
| "is_lock_event (UnlockByName n k) = True"
| "is_lock_event e = False"

subsection \<open>A directory service in memory\<close>

text \<open>
  Modelled from the spec: the remote directory service is an external collaborator. This
  one keeps the applications in an association list, reports a missing application as not
  found, and rejects a patch that drops a permission which is still enabled, the business
  rule that makes the deletion two-phased. It serves as the concrete service on which the
  general statements below are exercised.
\<close>

type_synonym directory = "(string \<times> Application) list"

definition directory_Get :: "directory \<Rightarrow> string \<Rightarrow> get_response" where
  "directory_Get r oid = (case map_of r oid of None \<Rightarrow> GetNotFound | Some app \<Rightarrow> GetOk app)"

definition directory_Patch ::
  "directory \<Rightarrow> string \<Rightarrow> OAuth2Permission list \<Rightarrow> bool \<times> directory" where
  "directory_Patch r oid newPermissions =
     (case map_of r oid of
        None \<Rightarrow> (False, r)
      | Some app \<Rightarrow>
          if list_all (\<lambda>p. IsEnabled p = Some True \<longrightarrow>
                            list_ex (\<lambda>q. perm_ID q = perm_ID p) newPermissions)
               (Oauth2Permissions app)
          then (True, (oid, \<lparr>Oauth2Permissions = newPermissions\<rparr>) # r)
          else (False, r))"

definition directory_client :: "directory AadClient" where
  "directory_client =
     \<lparr>GenerateUUID = Some ''generated'',
      client_Get = directory_Get,
      client_Patch = directory_Patch\<rparr>"

text \<open>The same service when every write is refused.\<close>

definition read_only_client :: "directory AadClient" where
  "read_only_client =
     \<lparr>GenerateUUID = Some ''generated'',
      client_Get = directory_Get,
      client_Patch = (\<lambda>r oid newPermissions. (False, r))\<rparr>"

definition scope1 :: OAuth2Permission where
  "scope1 =
     \<lparr>AdminConsentDescription = Some ''read'',
      AdminConsentDisplayName = Some ''Read'',
      perm_ID = Some ''s1'',
      IsEnabled = Some True,
      perm_Type = Some ''User'',
      UserConsentDescription = Some ''read'',
      UserConsentDisplayName = Some ''Read'',
      perm_Value = Some ''read''\<rparr>"

text \<open>A directory with one application, \<open>app1\<close>, that has one enabled permission.\<close>

definition app1_directory :: "directory world" where
  "app1_directory =
     \<lparr>remote = [(''app1'', \<lparr>Oauth2Permissions = [scope1]\<rparr>)], trace = []\<rparr>"

definition empty_directory :: "directory world" where
  "empty_directory = \<lparr>remote = [], trace = []\<rparr>"

text \<open>
  The resource data of a permission: new (no tracked id yet), or tracked under the id of
  its application and its own.
\<close>

definition tracked :: "string \<Rightarrow> string \<Rightarrow> bool \<Rightarrow> ResourceData" where
  "tracked objectId permissionId isNew =
     \<lparr>rd_Id = (if isNew then [] else objectId @ ''/'' @ permissionId),
      rd_IsNewResource = isNew,
      application_object_id = objectId,
      admin_consent_description = ''write'',
      admin_consent_display_name = ''Write'',
      is_enabled = True,
      permission_id = permissionId,
      permission_type = ''User'',
      user_consent_description = ''write'',
      user_consent_display_name = ''Write'',
      permission_value = ''write''\<rparr>"

subsection \<open>The users a lookup finds\<close>

text \<open>
  What the claims about \<^verbatim>\<open>ignore_missing\<close> call the users found: for each requested
  key in order, the user of a \<^verbatim>\<open>Get\<close> that succeeds, or the first user of a
  \<^verbatim>\<open>List\<close> that succeeds with a non-empty result.
\<close>

definition found_by_id :: "UsersClient \<Rightarrow> string list \<Rightarrow> User list" where
  "found_by_id client vs =
     concat (map (\<lambda>v. case users_Get client v of Inl err \<Rightarrow> [] | Inr user \<Rightarrow> [user]) vs)"

definition found_by_filter ::
  "UsersClient \<Rightarrow> (string \<Rightarrow> string) \<Rightarrow> string list \<Rightarrow> User list" where
  "found_by_filter client flt vs =
     concat (map (\<lambda>v. case users_List client (flt v) of
                         Inr (user # others) \<Rightarrow> [user] | _ \<Rightarrow> []) vs)"

definition users_found :: "UsersClient \<Rightarrow> UsersResourceData \<Rightarrow> User list" where
  "users_found client d =
     (if object_ids d \<noteq> [] then found_by_id client (object_ids d)
      else if mail_nicknames d \<noteq> [] then
        found_by_filter client mailNickname_filter (mail_nicknames d)
      else found_by_filter client userPrincipalName_filter (user_principal_names d))"

text \<open>The number of users requested: the length of the list that decides the branch.\<close>

definition users_requested :: "UsersResourceData \<Rightarrow> nat" where
  "users_requested d =
     (if object_ids d \<noteq> [] then length (object_ids d)
      else if mail_nicknames d \<noteq> [] then length (mail_nicknames d)
      else length (user_principal_names d))"

text \<open>A \<^verbatim>\<open>List\<close> lookup that fails or returns no user.\<close>

definition list_lookup_missing :: "UsersClient \<Rightarrow> string \<Rightarrow> bool" where
  "list_lookup_missing client flt =
     (case users_List client flt of Inr (user # others) \<Rightarrow> False | _ \<Rightarrow> True)"

text \<open>Some lookup of the read fails or returns no user.\<close>

definition lookup_missing :: "UsersClient \<Rightarrow> UsersResourceData \<Rightarrow> bool" where
  "lookup_missing client d =
     (if object_ids d \<noteq> [] then list_ex (\<lambda>v. isl (users_Get client v)) (object_ids d)
      else if mail_nicknames d \<noteq> [] then
        list_ex (\<lambda>v. list_lookup_missing client (mailNickname_filter v)) (mail_nicknames d)
      else
        list_ex (\<lambda>v. list_lookup_missing client (userPrincipalName_filter v))
          (user_principal_names d))"

text \<open>A user with the three pointers that lines 201 to 203 dereference.\<close>

definition user_complete :: "User \<Rightarrow> bool" where
  "user_complete u =
     (user_ID u \<noteq> None \<and> UserPrincipalName u \<noteq> None \<and> MailNickname u \<noteq> None)"

text \<open>The users that some call of the client returns and the read may append.\<close>

definition returns_user :: "UsersClient \<Rightarrow> User \<Rightarrow> bool" where
  "returns_user client u \<longleftrightarrow>
     (\<exists>v. users_Get client v = Inr u) \<or> (\<exists>f others. users_List client f = Inr (u # others))"

definition alice :: User where
  "alice =
     \<lparr>AccountEnabled = Some True,
      DisplayName = Some ''Alice'',
      Mail = None,
      MailNickname = Some ''alice'',
      user_ID = Some ''u1'',
      OnPremisesImmutableId = None,
      OnPremisesSamAccountName = None,
      OnPremisesUserPrincipalName = None,
      UsageLocation = None,
      UserPrincipalName = Some ''alice@example.com''\<rparr>"

text \<open>A users service that knows \<open>known\<close> under the object id \<open>u1\<close> and nobody else.\<close>

definition one_user_client :: "User \<Rightarrow> UsersClient" where
  "one_user_client known =
     \<lparr>users_Get = (\<lambda>v. if v = ''u1'' then Inr known else Inl ''not found''),
      users_List = (\<lambda>f. Inr [])\<rparr>"

definition by_object_ids :: "string list \<Rightarrow> bool \<Rightarrow> UsersResourceData" where
  "by_object_ids ids ignoreMissing =
     \<lparr>ud_Id = [], object_ids = ids, mail_nicknames = [], user_principal_names = [],
      ignore_missing = ignoreMissing, users = []\<rparr>"

section \<open>The composite identifier\<close>





section \<open>The lifecycle operations\<close>

lemma unlock_after_simps:
  "fst (unlock_after n k res) = fst res"
  "fst (snd (unlock_after n k res)) = fst (snd res)"
  "snd (snd (unlock_after n k res)) = emit (UnlockByName n k) (snd (snd res))"
  by (cases res; simp add: unlock_after_def)+

lemmas run_defs = err_of_def data_of_def world_of_def new_events_def unlock_after_simps emit_def

lemmas model_defs =
  applicationOAuth2PermissionResourceDelete_def delete_locked_def delete_remove_def
  applicationOAuth2PermissionResourceCreateUpdate_def createUpdate_locked_def
  createUpdate_patch_def applicationOAuth2PermissionResourceRead_def
  resolve_permission_id_def candidate_permission_def
  ParseOAuth2PermissionId_def id_String_def OAuth2PermissionIdFrom_def id_delimiter_def
  OAuth2PermissionFindById_def OAuth2PermissionAdd_def OAuth2PermissionUpdate_def
  OAuth2PermissionResultDisableById_def OAuth2PermissionResultRemoveById_def
  resourceApplicationName_def

lemmas directory_defs =
  directory_client_def read_only_client_def directory_Get_def directory_Patch_def
  scope1_def app1_directory_def empty_directory_def tracked_def

subsection \<open>The deletion and its lock\<close>

lemma delete_remove_events:
  "\<exists>evs. trace (world_of (delete_remove meta d i app w)) = trace w @ evs \<and>
         list_all (\<lambda>e. \<not> is_lock_event e) evs"
  by (auto simp: delete_remove_def run_defs Let_def split: sum.splits prod.splits bool.splits)

lemma delete_locked_events:
  "\<exists>evs. trace (world_of (delete_locked meta d i w)) = trace w @ evs \<and>
         list_all (\<lambda>e. \<not> is_lock_event e) evs"
proof (cases "client_Get meta (remote w) (ObjectId i)")
  case (GetOk app)
  show ?thesis
  proof (cases "OAuth2PermissionResultDisableById (Oauth2Permissions app) (PermissionId i)")
    case (Inl err)
    with GetOk show ?thesis
      by (simp add: delete_locked_def run_defs)
  next
    case (Inr ps)
    obtain ok r where p: "client_Patch meta (remote w) (ObjectId i) ps = (ok, r)"
      by (cases "client_Patch meta (remote w) (ObjectId i) ps")
    show ?thesis
    proof (cases ok)
      case False
      with GetOk Inr p show ?thesis
        by (simp add: delete_locked_def run_defs)
    next
      case True
      let ?w = "w\<lparr>remote := r, trace := trace w @ [ClientGet (ObjectId i),
        Reconcile OpDisableById, ClientPatch (ObjectId i) ps True]\<rparr>"
      obtain evs where "trace (world_of (delete_remove meta d i app ?w)) = trace ?w @ evs"
        "list_all (\<lambda>e. \<not> is_lock_event e) evs"
        using delete_remove_events by blast
      with GetOk Inr p True show ?thesis
        by (simp add: delete_locked_def run_defs)
    qed
  qed
qed (simp_all add: delete_locked_def run_defs)

text \<open>
  C2, as stated: the deletion takes and releases the named lock once for the disable phase
  and once more for the remove phase, with a window between the two commits. On the
  directory with one enabled permission the deletion runs both phases and the trace shows
  one acquisition, before the fetch, and one release, after the second patch: both patches
  lie between them.
\<close>

theorem delete_two_locks_counterexample:
  "new_events app1_directory
     (applicationOAuth2PermissionResourceDelete directory_client (tracked ''app1'' ''s1'' False)
        app1_directory) =
   [LockByName resourceApplicationName ''app1'',
    ClientGet ''app1'',
    Reconcile OpDisableById,
    ClientPatch ''app1'' [scope1\<lparr>IsEnabled := Some False\<rparr>] True,
    Reconcile OpRemoveById,
    ClientPatch ''app1'' [] True,
    UnlockByName resourceApplicationName ''app1'']"
  by (simp add: model_defs directory_defs run_defs)

text \<open>
  C2, amended: the deletion performs its two phases, disable writeback then remove
  writeback, one after the other under a single acquisition of the named lock of the
  parent: whenever the tracked id parses, the lock is taken first, released last, and
  neither taken nor released in between, so no window separates the two commits.
\<close>

theorem delete_single_lock:
  assumes "ParseOAuth2PermissionId (rd_Id d) = Inr i"
  shows "\<exists>mid. new_events w (applicationOAuth2PermissionResourceDelete meta d w) =
           LockByName resourceApplicationName (ObjectId i) # mid
             @ [UnlockByName resourceApplicationName (ObjectId i)] \<and>
         list_all (\<lambda>e. \<not> is_lock_event e) mid"
proof -
  obtain evs where
    "trace (world_of (delete_locked meta d i
       (emit (LockByName resourceApplicationName (ObjectId i)) w)))
       = trace (emit (LockByName resourceApplicationName (ObjectId i)) w) @ evs"
    "list_all (\<lambda>e. \<not> is_lock_event e) evs"
    using delete_locked_events by blast
  then show ?thesis
    using assms
    by (simp add: applicationOAuth2PermissionResourceDelete_def run_defs)
qed

theorem delete_single_lock_witness:
  "ParseOAuth2PermissionId (rd_Id (tracked ''app1'' ''s1'' False)) =
     Inr \<lparr>ObjectId = ''app1'', PermissionId = ''s1''\<rparr> \<and>
   (\<exists>mid. new_events app1_directory
      (applicationOAuth2PermissionResourceDelete directory_client (tracked ''app1'' ''s1'' False)
         app1_directory) =
      LockByName resourceApplicationName ''app1'' # mid
        @ [UnlockByName resourceApplicationName ''app1''] \<and>
      list_all (\<lambda>e. \<not> is_lock_event e) mid)"
proof -
  have p: "ParseOAuth2PermissionId (rd_Id (tracked ''app1'' ''s1'' False)) =
     Inr \<lparr>ObjectId = ''app1'', PermissionId = ''s1''\<rparr>"
    by (simp add: ParseOAuth2PermissionId_def id_delimiter_def tracked_def)
  show ?thesis
    using p delete_single_lock [OF p, of app1_directory directory_client] by simp
qed

subsection \<open>The order of the two phases of the deletion\<close>

lemma delete_remove_first_event:
  "\<exists>evs. trace (world_of (delete_remove meta d i app w)) = trace w @ Reconcile OpRemoveById # evs"
  by (auto simp: delete_remove_def run_defs Let_def split: sum.splits prod.splits bool.splits)

text \<open>
  C3: in every run of the deletion the disable reconciliation and its writeback are
  completed before the remove reconciliation or its writeback is attempted, and the removal
  is never attempted when the disable writeback failed. First conjunct: when the remove
  reconciliation appears among the events of a run, everything before it is the lock, the
  fetch, the disable reconciliation and a patch that the service accepted, carrying the
  collection the disable reconciliation returned. Second conjunct: when the service refuses
  that patch, the run ends with the patching error right after it, with no remove
  reconciliation and no second patch.
\<close>

theorem delete_disable_before_remove:
  "(Reconcile OpRemoveById \<in> set (new_events w (applicationOAuth2PermissionResourceDelete meta d w))
      \<longrightarrow> (\<exists>i app ps r.
             ParseOAuth2PermissionId (rd_Id d) = Inr i \<and>
             client_Get meta (remote w) (ObjectId i) = GetOk app \<and>
             OAuth2PermissionResultDisableById (Oauth2Permissions app) (PermissionId i) = Inr ps \<and>
             client_Patch meta (remote w) (ObjectId i) ps = (True, r) \<and>
             takeWhile (\<lambda>e. e \<noteq> Reconcile OpRemoveById)
               (new_events w (applicationOAuth2PermissionResourceDelete meta d w)) =
               [LockByName resourceApplicationName (ObjectId i), ClientGet (ObjectId i),
                Reconcile OpDisableById, ClientPatch (ObjectId i) ps True]))
   \<and> (\<forall>i app ps r.
         ParseOAuth2PermissionId (rd_Id d) = Inr i \<and>
         client_Get meta (remote w) (ObjectId i) = GetOk app \<and>
         OAuth2PermissionResultDisableById (Oauth2Permissions app) (PermissionId i) = Inr ps \<and>
         client_Patch meta (remote w) (ObjectId i) ps = (False, r)
         \<longrightarrow> err_of (applicationOAuth2PermissionResourceDelete meta d w)
               = Some (PatchingApplication (ObjectId i)) \<and>
             new_events w (applicationOAuth2PermissionResourceDelete meta d w) =
               [LockByName resourceApplicationName (ObjectId i), ClientGet (ObjectId i),
                Reconcile OpDisableById, ClientPatch (ObjectId i) ps False,
                UnlockByName resourceApplicationName (ObjectId i)])"
proof (intro conjI impI allI)
  fix i app ps r
  assume h: "ParseOAuth2PermissionId (rd_Id d) = Inr i \<and>
         client_Get meta (remote w) (ObjectId i) = GetOk app \<and>
         OAuth2PermissionResultDisableById (Oauth2Permissions app) (PermissionId i) = Inr ps \<and>
         client_Patch meta (remote w) (ObjectId i) ps = (False, r)"
  then show "err_of (applicationOAuth2PermissionResourceDelete meta d w)
               = Some (PatchingApplication (ObjectId i))"
    by (simp add: applicationOAuth2PermissionResourceDelete_def delete_locked_def run_defs)
  from h show "new_events w (applicationOAuth2PermissionResourceDelete meta d w) =
               [LockByName resourceApplicationName (ObjectId i), ClientGet (ObjectId i),
                Reconcile OpDisableById, ClientPatch (ObjectId i) ps False,
                UnlockByName resourceApplicationName (ObjectId i)]"
    by (simp add: applicationOAuth2PermissionResourceDelete_def delete_locked_def run_defs)
next
  let ?evs = "new_events w (applicationOAuth2PermissionResourceDelete meta d w)"
  assume rm: "Reconcile OpRemoveById \<in> set ?evs"
  show "\<exists>i app ps r.
             ParseOAuth2PermissionId (rd_Id d) = Inr i \<and>
             client_Get meta (remote w) (ObjectId i) = GetOk app \<and>
             OAuth2PermissionResultDisableById (Oauth2Permissions app) (PermissionId i) = Inr ps \<and>
             client_Patch meta (remote w) (ObjectId i) ps = (True, r) \<and>
             takeWhile (\<lambda>e. e \<noteq> Reconcile OpRemoveById) ?evs =
               [LockByName resourceApplicationName (ObjectId i), ClientGet (ObjectId i),
                Reconcile OpDisableById, ClientPatch (ObjectId i) ps True]"
  proof (cases "ParseOAuth2PermissionId (rd_Id d)")
    case (Inl e)
    with rm show ?thesis
      by (simp add: applicationOAuth2PermissionResourceDelete_def run_defs)
  next
    case (Inr i)
    show ?thesis
    proof (cases "client_Get meta (remote w) (ObjectId i)")
      case (GetOk app)
      show ?thesis
      proof (cases "OAuth2PermissionResultDisableById (Oauth2Permissions app) (PermissionId i)")
        case (Inl err)
        with rm Inr GetOk show ?thesis
          by (simp add: applicationOAuth2PermissionResourceDelete_def delete_locked_def run_defs)
      next
        case ps: (Inr ps)
        obtain ok r where p: "client_Patch meta (remote w) (ObjectId i) ps = (ok, r)"
          by (cases "client_Patch meta (remote w) (ObjectId i) ps")
        show ?thesis
        proof (cases ok)
          case False
          with rm Inr GetOk ps p show ?thesis
            by (simp add: applicationOAuth2PermissionResourceDelete_def delete_locked_def run_defs)
        next
          case True
          let ?w = "w\<lparr>remote := r, trace := trace w @ [LockByName resourceApplicationName (ObjectId i),
            ClientGet (ObjectId i), Reconcile OpDisableById, ClientPatch (ObjectId i) ps True]\<rparr>"
          obtain evs where
            "trace (world_of (delete_remove meta d i app ?w)) = trace ?w @ Reconcile OpRemoveById # evs"
            using delete_remove_first_event by blast
          with Inr GetOk ps p True show ?thesis
            by (simp add: applicationOAuth2PermissionResourceDelete_def delete_locked_def run_defs)
        qed
      qed
    next
      case GetNotFound
      with rm Inr show ?thesis
        by (simp add: applicationOAuth2PermissionResourceDelete_def delete_locked_def run_defs)
    next
      case GetError
      with rm Inr show ?thesis
        by (simp add: applicationOAuth2PermissionResourceDelete_def delete_locked_def run_defs)
    qed
  qed
qed


theorem delete_disable_before_remove_witness:
  "(Reconcile OpRemoveById \<in> set (new_events app1_directory
       (applicationOAuth2PermissionResourceDelete directory_client (tracked ''app1'' ''s1'' False)
          app1_directory)) \<and>
    (\<exists>i app ps r.
       ParseOAuth2PermissionId (rd_Id (tracked ''app1'' ''s1'' False)) = Inr i \<and>
       client_Get directory_client (remote app1_directory) (ObjectId i) = GetOk app \<and>
       OAuth2PermissionResultDisableById (Oauth2Permissions app) (PermissionId i) = Inr ps \<and>
       client_Patch directory_client (remote app1_directory) (ObjectId i) ps = (True, r) \<and>
       takeWhile (\<lambda>e. e \<noteq> Reconcile OpRemoveById)
         (new_events app1_directory
            (applicationOAuth2PermissionResourceDelete directory_client
               (tracked ''app1'' ''s1'' False) app1_directory)) =
         [LockByName resourceApplicationName (ObjectId i), ClientGet (ObjectId i),
          Reconcile OpDisableById, ClientPatch (ObjectId i) ps True]))
   \<and> (client_Patch read_only_client (remote app1_directory) ''app1''
         [scope1\<lparr>IsEnabled := Some False\<rparr>] = (False, remote app1_directory) \<and>
       err_of (applicationOAuth2PermissionResourceDelete read_only_client
                 (tracked ''app1'' ''s1'' False) app1_directory)
         = Some (PatchingApplication ''app1'') \<and>
       new_events app1_directory
         (applicationOAuth2PermissionResourceDelete read_only_client
            (tracked ''app1'' ''s1'' False) app1_directory) =
         [LockByName resourceApplicationName ''app1'', ClientGet ''app1'',
          Reconcile OpDisableById,
          ClientPatch ''app1'' [scope1\<lparr>IsEnabled := Some False\<rparr>] False,
          UnlockByName resourceApplicationName ''app1''])"
proof -
  let ?d = "tracked ''app1'' ''s1'' False"
  let ?i = "\<lparr>ObjectId = ''app1'', PermissionId = ''s1''\<rparr>"
  have rm: "Reconcile OpRemoveById \<in> set (new_events app1_directory
       (applicationOAuth2PermissionResourceDelete directory_client ?d app1_directory))"
    by (simp add: model_defs directory_defs run_defs)
  have h: "ParseOAuth2PermissionId (rd_Id ?d) = Inr ?i \<and>
       client_Get read_only_client (remote app1_directory) (ObjectId ?i)
         = GetOk \<lparr>Oauth2Permissions = [scope1]\<rparr> \<and>
       OAuth2PermissionResultDisableById (Oauth2Permissions \<lparr>Oauth2Permissions = [scope1]\<rparr>)
         (PermissionId ?i) = Inr [scope1\<lparr>IsEnabled := Some False\<rparr>] \<and>
       client_Patch read_only_client (remote app1_directory) (ObjectId ?i)
         [scope1\<lparr>IsEnabled := Some False\<rparr>] = (False, remote app1_directory)"
    by (simp add: model_defs directory_defs)
  note a = delete_disable_before_remove
    [of app1_directory directory_client ?d, THEN conjunct1, rule_format, OF rm]
  note b = delete_disable_before_remove
    [of app1_directory read_only_client ?d, THEN conjunct2, rule_format, OF h]
  from rm a b h show ?thesis by simp
qed

subsection \<open>A missing parent, a missing or a duplicate permission\<close>

lemma find_absent:
  "\<forall>p \<in> set ps. perm_ID p \<noteq> Some pid \<Longrightarrow> find (\<lambda>p. perm_ID p = Some pid) ps = None"
  by (simp add: find_None_iff)

text \<open>
  C4, as stated: create, update and delete all return the parent-not-found error when the
  fetch reports the application missing. The deletion does not: on a directory without the
  application it returns no error.
\<close>

theorem delete_parent_missing_counterexample:
  "client_Get directory_client (remote empty_directory) ''app1'' = GetNotFound \<and>
   err_of (applicationOAuth2PermissionResourceDelete directory_client
             (tracked ''app1'' ''s1'' False) empty_directory) = None"
  by (simp add: model_defs directory_defs run_defs)

text \<open>
  C4, amended: when the fetch reports the application missing, create and update return
  the parent-not-found error, and the deletion returns success, the permission being gone
  with its parent; in both cases the run is the lock, the fetch and the unlock, so no
  reconciliation function and no remote write is invoked, and the remote state is the one
  the run started in.
\<close>

theorem parent_missing_no_reconcile:
  "(resolve_permission_id meta d = Inr pid \<and>
    client_Get meta (remote w) (application_object_id d) = GetNotFound \<longrightarrow>
      err_of (applicationOAuth2PermissionResourceCreateUpdate meta d w)
        = Some (ApplicationNotFound (application_object_id d)) \<and>
      new_events w (applicationOAuth2PermissionResourceCreateUpdate meta d w) =
        [LockByName resourceApplicationName (application_object_id d),
         ClientGet (application_object_id d),
         UnlockByName resourceApplicationName (application_object_id d)] \<and>
      remote (world_of (applicationOAuth2PermissionResourceCreateUpdate meta d w)) = remote w)
   \<and> (ParseOAuth2PermissionId (rd_Id d) = Inr i \<and>
       client_Get meta (remote w) (ObjectId i) = GetNotFound \<longrightarrow>
      err_of (applicationOAuth2PermissionResourceDelete meta d w) = None \<and>
      new_events w (applicationOAuth2PermissionResourceDelete meta d w) =
        [LockByName resourceApplicationName (ObjectId i), ClientGet (ObjectId i),
         UnlockByName resourceApplicationName (ObjectId i)] \<and>
      remote (world_of (applicationOAuth2PermissionResourceDelete meta d w)) = remote w)"
  by (simp add: applicationOAuth2PermissionResourceCreateUpdate_def createUpdate_locked_def
      applicationOAuth2PermissionResourceDelete_def delete_locked_def
      OAuth2PermissionIdFrom_def run_defs)

theorem parent_missing_no_reconcile_witness:
  "(resolve_permission_id directory_client (tracked ''app1'' ''s1'' True) = Inr ''s1'' \<and>
    client_Get directory_client (remote empty_directory) ''app1'' = GetNotFound \<and>
    err_of (applicationOAuth2PermissionResourceCreateUpdate directory_client
              (tracked ''app1'' ''s1'' True) empty_directory)
      = Some (ApplicationNotFound ''app1'') \<and>
    new_events empty_directory
      (applicationOAuth2PermissionResourceCreateUpdate directory_client
         (tracked ''app1'' ''s1'' True) empty_directory) =
      [LockByName resourceApplicationName ''app1'', ClientGet ''app1'',
       UnlockByName resourceApplicationName ''app1''])
   \<and> (ParseOAuth2PermissionId (rd_Id (tracked ''app1'' ''s1'' False))
         = Inr \<lparr>ObjectId = ''app1'', PermissionId = ''s1''\<rparr> \<and>
       err_of (applicationOAuth2PermissionResourceDelete directory_client
                 (tracked ''app1'' ''s1'' False) empty_directory) = None \<and>
       new_events empty_directory
         (applicationOAuth2PermissionResourceDelete directory_client
            (tracked ''app1'' ''s1'' False) empty_directory) =
         [LockByName resourceApplicationName ''app1'', ClientGet ''app1'',
          UnlockByName resourceApplicationName ''app1''])"
proof -
  have g: "client_Get directory_client (remote empty_directory) ''app1'' = GetNotFound"
    by (simp add: directory_defs)
  have r: "resolve_permission_id directory_client (tracked ''app1'' ''s1'' True) = Inr ''s1''"
    by (simp add: resolve_permission_id_def tracked_def)
  have p: "ParseOAuth2PermissionId (rd_Id (tracked ''app1'' ''s1'' False))
         = Inr \<lparr>ObjectId = ''app1'', PermissionId = ''s1''\<rparr>"
    by (simp add: ParseOAuth2PermissionId_def id_delimiter_def tracked_def)
  have o: "application_object_id (tracked ''app1'' ''s1'' True) = ''app1''"
    by (simp add: tracked_def)
  have ha: "resolve_permission_id directory_client (tracked ''app1'' ''s1'' True) = Inr ''s1'' \<and>
    client_Get directory_client (remote empty_directory)
      (application_object_id (tracked ''app1'' ''s1'' True)) = GetNotFound"
    using r g by (simp add: o)
  have hb: "ParseOAuth2PermissionId (rd_Id (tracked ''app1'' ''s1'' False))
      = Inr \<lparr>ObjectId = ''app1'', PermissionId = ''s1''\<rparr> \<and>
    client_Get directory_client (remote empty_directory)
      (ObjectId \<lparr>ObjectId = ''app1'', PermissionId = ''s1''\<rparr>) = GetNotFound"
    using p g by simp
  note a = parent_missing_no_reconcile
    [of directory_client "tracked ''app1'' ''s1'' True" "''s1''" empty_directory,
     THEN conjunct1, rule_format, OF ha]
  note b = parent_missing_no_reconcile
    [of directory_client "tracked ''app1'' ''s1'' False" _ empty_directory
        "\<lparr>ObjectId = ''app1'', PermissionId = ''s1''\<rparr>",
     THEN conjunct2, rule_format, OF hb]
  from g r p a b show ?thesis by (simp add: o)
qed

text \<open>
  C5: an update (the resource is not new) of a permission whose id is absent from the
  collection of the fetched parent fails with the permission-not-found error; the run has
  no patch event, and the remote state is unchanged.
\<close>

theorem update_absent_permission:
  assumes "\<not> rd_IsNewResource d"
    and "resolve_permission_id meta d = Inr pid"
    and "client_Get meta (remote w) (application_object_id d) = GetOk app"
    and "\<forall>p \<in> set (Oauth2Permissions app). perm_ID p \<noteq> Some pid"
  shows "err_of (applicationOAuth2PermissionResourceCreateUpdate meta d w)
           = Some (PermissionNotFound pid (application_object_id d)) \<and>
         new_events w (applicationOAuth2PermissionResourceCreateUpdate meta d w) =
           [LockByName resourceApplicationName (application_object_id d),
            ClientGet (application_object_id d), Reconcile OpFindById,
            UnlockByName resourceApplicationName (application_object_id d)] \<and>
         remote (world_of (applicationOAuth2PermissionResourceCreateUpdate meta d w)) = remote w"
  using assms(1-3) find_absent [OF assms(4)]
  by (simp add: applicationOAuth2PermissionResourceCreateUpdate_def createUpdate_locked_def
      OAuth2PermissionIdFrom_def OAuth2PermissionFindById_def run_defs)

theorem update_absent_permission_witness:
  "\<not> rd_IsNewResource (tracked ''app1'' ''s2'' False) \<and>
   resolve_permission_id directory_client (tracked ''app1'' ''s2'' False) = Inr ''s2'' \<and>
   client_Get directory_client (remote app1_directory) ''app1''
     = GetOk \<lparr>Oauth2Permissions = [scope1]\<rparr> \<and>
   err_of (applicationOAuth2PermissionResourceCreateUpdate directory_client
             (tracked ''app1'' ''s2'' False) app1_directory)
     = Some (PermissionNotFound ''s2'' ''app1'') \<and>
   new_events app1_directory
     (applicationOAuth2PermissionResourceCreateUpdate directory_client
        (tracked ''app1'' ''s2'' False) app1_directory) =
     [LockByName resourceApplicationName ''app1'', ClientGet ''app1'', Reconcile OpFindById,
      UnlockByName resourceApplicationName ''app1''] \<and>
   remote (world_of (applicationOAuth2PermissionResourceCreateUpdate directory_client
                       (tracked ''app1'' ''s2'' False) app1_directory))
     = remote app1_directory"
proof -
  let ?d = "tracked ''app1'' ''s2'' False"
  have n: "\<not> rd_IsNewResource ?d" by (simp add: tracked_def)
  have r: "resolve_permission_id directory_client ?d = Inr ''s2''"
    by (simp add: resolve_permission_id_def tracked_def)
  have g: "client_Get directory_client (remote app1_directory) (application_object_id ?d)
     = GetOk \<lparr>Oauth2Permissions = [scope1]\<rparr>"
    by (simp add: directory_defs)
  have a: "\<forall>p \<in> set (Oauth2Permissions \<lparr>Oauth2Permissions = [scope1]\<rparr>). perm_ID p \<noteq> Some ''s2''"
    by (simp add: scope1_def)
  have o: "application_object_id ?d = ''app1''" by (simp add: tracked_def)
  from n r g update_absent_permission [OF n r g a] show ?thesis
    by (simp add: o)
qed

text \<open>
  C7: a create (the resource is new) of a permission whose id is already present in the
  collection of the fetched parent returns the import-as-exists error, which carries the
  resource type and the composite id; the run has no patch event and the remote state,
  with the existing entry, is unchanged.
\<close>

theorem create_existing_permission:
  assumes "rd_IsNewResource d"
    and "resolve_permission_id meta d = Inr pid"
    and "client_Get meta (remote w) (application_object_id d) = GetOk app"
    and "\<exists>p \<in> set (Oauth2Permissions app). perm_ID p = Some pid"
  shows "err_of (applicationOAuth2PermissionResourceCreateUpdate meta d w)
           = Some (ImportAsExists ''azuread_application_oauth2_permission''
                     (id_String (OAuth2PermissionIdFrom (application_object_id d) pid))) \<and>
         new_events w (applicationOAuth2PermissionResourceCreateUpdate meta d w) =
           [LockByName resourceApplicationName (application_object_id d),
            ClientGet (application_object_id d), Reconcile OpAdd,
            UnlockByName resourceApplicationName (application_object_id d)] \<and>
         remote (world_of (applicationOAuth2PermissionResourceCreateUpdate meta d w)) = remote w"
  using assms
  by (simp add: applicationOAuth2PermissionResourceCreateUpdate_def createUpdate_locked_def
      OAuth2PermissionIdFrom_def OAuth2PermissionAdd_def candidate_permission_def
      list_ex_iff run_defs)

theorem create_existing_permission_witness:
  "rd_IsNewResource (tracked ''app1'' ''s1'' True) \<and>
   resolve_permission_id directory_client (tracked ''app1'' ''s1'' True) = Inr ''s1'' \<and>
   client_Get directory_client (remote app1_directory) ''app1''
     = GetOk \<lparr>Oauth2Permissions = [scope1]\<rparr> \<and>
   perm_ID scope1 = Some ''s1'' \<and>
   err_of (applicationOAuth2PermissionResourceCreateUpdate directory_client
             (tracked ''app1'' ''s1'' True) app1_directory)
     = Some (ImportAsExists ''azuread_application_oauth2_permission'' ''app1/s1'') \<and>
   new_events app1_directory
     (applicationOAuth2PermissionResourceCreateUpdate directory_client
        (tracked ''app1'' ''s1'' True) app1_directory) =
     [LockByName resourceApplicationName ''app1'', ClientGet ''app1'', Reconcile OpAdd,
      UnlockByName resourceApplicationName ''app1''] \<and>
   remote (world_of (applicationOAuth2PermissionResourceCreateUpdate directory_client
                       (tracked ''app1'' ''s1'' True) app1_directory))
     = remote app1_directory"
proof -
  let ?d = "tracked ''app1'' ''s1'' True"
  have n: "rd_IsNewResource ?d" by (simp add: tracked_def)
  have r: "resolve_permission_id directory_client ?d = Inr ''s1''"
    by (simp add: resolve_permission_id_def tracked_def)
  have g: "client_Get directory_client (remote app1_directory) (application_object_id ?d)
     = GetOk \<lparr>Oauth2Permissions = [scope1]\<rparr>"
    by (simp add: directory_defs)
  have a: "\<exists>p \<in> set (Oauth2Permissions \<lparr>Oauth2Permissions = [scope1]\<rparr>). perm_ID p = Some ''s1''"
    by (simp add: scope1_def)
  have o: "application_object_id ?d = ''app1''" by (simp add: tracked_def)
  have s: "perm_ID scope1 = Some ''s1''" by (simp add: scope1_def)
  from n r g s create_existing_permission [OF n r g a] show ?thesis
    by (simp add: o id_String_def OAuth2PermissionIdFrom_def id_delimiter_def)
qed

text \<open>
  C6: a read of a tracked permission returns no error and clears the tracked id when the
  fetch reports the application missing, and when the application is there and its
  collection has no permission with the tracked permission id. A tracked id is one that
  parses: the importer at line 26 admits no other, and create and update track the
  formatted pair.
\<close>

theorem read_absent_clears_id:
  assumes "ParseOAuth2PermissionId (rd_Id d) = Inr i"
    and "client_Get meta (remote w) (ObjectId i) = GetNotFound \<or>
         (\<exists>app. client_Get meta (remote w) (ObjectId i) = GetOk app \<and>
                (\<forall>p \<in> set (Oauth2Permissions app). perm_ID p \<noteq> Some (PermissionId i)))"
  shows "err_of (applicationOAuth2PermissionResourceRead meta d w) = None \<and>
         rd_Id (data_of (applicationOAuth2PermissionResourceRead meta d w)) = []"
  using assms
  by (auto simp: applicationOAuth2PermissionResourceRead_def OAuth2PermissionFindById_def
      find_absent run_defs)

theorem read_absent_clears_id_witness:
  "(ParseOAuth2PermissionId (rd_Id (tracked ''app1'' ''s1'' False))
      = Inr \<lparr>ObjectId = ''app1'', PermissionId = ''s1''\<rparr> \<and>
    client_Get directory_client (remote empty_directory) ''app1'' = GetNotFound \<and>
    err_of (applicationOAuth2PermissionResourceRead directory_client
              (tracked ''app1'' ''s1'' False) empty_directory) = None \<and>
    rd_Id (data_of (applicationOAuth2PermissionResourceRead directory_client
                      (tracked ''app1'' ''s1'' False) empty_directory)) = [])
   \<and> (ParseOAuth2PermissionId (rd_Id (tracked ''app1'' ''s2'' False))
         = Inr \<lparr>ObjectId = ''app1'', PermissionId = ''s2''\<rparr> \<and>
       client_Get directory_client (remote app1_directory) ''app1''
         = GetOk \<lparr>Oauth2Permissions = [scope1]\<rparr> \<and>
       perm_ID scope1 \<noteq> Some ''s2'' \<and>
       err_of (applicationOAuth2PermissionResourceRead directory_client
                 (tracked ''app1'' ''s2'' False) app1_directory) = None \<and>
       rd_Id (data_of (applicationOAuth2PermissionResourceRead directory_client
                         (tracked ''app1'' ''s2'' False) app1_directory)) = [])"
proof -
  let ?i1 = "\<lparr>ObjectId = ''app1'', PermissionId = ''s1''\<rparr>"
  let ?i2 = "\<lparr>ObjectId = ''app1'', PermissionId = ''s2''\<rparr>"
  have p1: "ParseOAuth2PermissionId (rd_Id (tracked ''app1'' ''s1'' False)) = Inr ?i1"
    by (simp add: ParseOAuth2PermissionId_def id_delimiter_def tracked_def)
  have p2: "ParseOAuth2PermissionId (rd_Id (tracked ''app1'' ''s2'' False)) = Inr ?i2"
    by (simp add: ParseOAuth2PermissionId_def id_delimiter_def tracked_def)
  have g1: "client_Get directory_client (remote empty_directory) ''app1'' = GetNotFound"
    by (simp add: directory_defs)
  have g2: "client_Get directory_client (remote app1_directory) ''app1''
         = GetOk \<lparr>Oauth2Permissions = [scope1]\<rparr>"
    by (simp add: directory_defs)
  have s: "perm_ID scope1 \<noteq> Some ''s2''" by (simp add: scope1_def)
  have h1: "client_Get directory_client (remote empty_directory) (ObjectId ?i1) = GetNotFound \<or>
         (\<exists>app. client_Get directory_client (remote empty_directory) (ObjectId ?i1) = GetOk app \<and>
                (\<forall>p \<in> set (Oauth2Permissions app). perm_ID p \<noteq> Some (PermissionId ?i1)))"
    using g1 by simp
  have h2: "client_Get directory_client (remote app1_directory) (ObjectId ?i2) = GetNotFound \<or>
         (\<exists>app. client_Get directory_client (remote app1_directory) (ObjectId ?i2) = GetOk app \<and>
                (\<forall>p \<in> set (Oauth2Permissions app). perm_ID p \<noteq> Some (PermissionId ?i2)))"
    using g2 s by simp
  from p1 p2 g1 g2 s read_absent_clears_id [OF p1 h1] read_absent_clears_id [OF p2 h2]
  show ?thesis by simp
qed

section \<open>The multi-user lookup and the ignore-missing flag\<close>

lemma object_ids_loop_ignore:
  "object_ids_loop client True vs us = Inr (us @ found_by_id client vs)"
  by (induction vs arbitrary: us) (auto simp: found_by_id_def split: sum.splits)

lemma mail_nicknames_loop_ignore:
  "mail_nicknames_loop client True vs us =
     Inr (us @ found_by_filter client mailNickname_filter vs)"
  by (induction vs arbitrary: us) (auto simp: found_by_filter_def split: sum.splits list.splits)

lemma upns_loop_ignore:
  "upns_loop client True vs us =
     Inr (us @ found_by_filter client userPrincipalName_filter vs)"
  by (induction vs arbitrary: us) (auto simp: found_by_filter_def split: sum.splits list.splits)

lemma lookup_ignore:
  "ignore_missing d \<Longrightarrow>
   usersDataRead_lookup client d = Inr (users_found client d, users_requested d)"
  by (simp add: usersDataRead_lookup_def users_found_def users_requested_def
      object_ids_loop_ignore mail_nicknames_loop_ignore upns_loop_ignore found_by_filter_def)

lemma users_fields_complete:
  "\<forall>u \<in> set us. user_complete u \<Longrightarrow>
   users_fields us (a, b, c, l) =
     Inr (a @ map (\<lambda>u. the (user_ID u)) us, b @ map (\<lambda>u. the (UserPrincipalName u)) us,
          c @ map (\<lambda>u. the (MailNickname u)) us, l @ us)"
  by (induction us arbitrary: a b c l) (auto simp: user_complete_def)

lemma object_ids_loop_strict:
  "list_ex (\<lambda>v. isl (users_Get client v)) vs \<Longrightarrow> isl (object_ids_loop client False vs us)"
  by (induction vs arbitrary: us) (auto split: sum.splits)

lemma mail_nicknames_loop_strict:
  "list_ex (\<lambda>v. list_lookup_missing client (mailNickname_filter v)) vs \<Longrightarrow>
   isl (mail_nicknames_loop client False vs us)"
  by (induction vs arbitrary: us)
     (auto simp: list_lookup_missing_def split: sum.splits list.splits)

lemma upns_loop_strict:
  "list_ex (\<lambda>v. list_lookup_missing client (userPrincipalName_filter v)) vs \<Longrightarrow>
   isl (upns_loop client False vs us)"
  by (induction vs arbitrary: us)
     (auto simp: list_lookup_missing_def split: sum.splits list.splits)

lemma lookup_strict:
  "\<not> ignore_missing d \<Longrightarrow> lookup_missing client d \<Longrightarrow> isl (usersDataRead_lookup client d)"
  using object_ids_loop_strict [of client "object_ids d" "[]"]
    mail_nicknames_loop_strict [of client "mail_nicknames d" "[]"]
    upns_loop_strict [of client "user_principal_names d" "[]"]
  by (auto simp: usersDataRead_lookup_def lookup_missing_def split: sum.splits if_splits)

lemma read_strict:
  "\<not> ignore_missing d \<Longrightarrow> lookup_missing client d \<Longrightarrow> isl (usersDataRead hash client d)"
  using lookup_strict [of d client]
  by (auto simp: usersDataRead_def split: sum.splits)

lemma found_by_id_length:
  "\<not> list_ex (\<lambda>v. isl (users_Get client v)) vs \<Longrightarrow> length (found_by_id client vs) = length vs"
  by (induction vs) (auto simp: found_by_id_def split: sum.splits)

lemma found_by_filter_length:
  "\<not> list_ex (\<lambda>v. list_lookup_missing client (flt v)) vs \<Longrightarrow>
   length (found_by_filter client flt vs) = length vs"
  by (induction vs)
     (auto simp: found_by_filter_def list_lookup_missing_def split: sum.splits list.splits)

lemma count_mismatch_missing:
  "length (users_found client d) \<noteq> users_requested d \<Longrightarrow> lookup_missing client d"
  using found_by_id_length [of client "object_ids d"]
    found_by_filter_length [of client mailNickname_filter "mail_nicknames d"]
    found_by_filter_length [of client userPrincipalName_filter "user_principal_names d"]
  by (auto simp: users_found_def users_requested_def lookup_missing_def split: if_splits)

lemma read_ignore:
  assumes "ignore_missing d" "\<forall>u \<in> set (users_found client d). user_complete u"
  shows "\<exists>d'. usersDataRead hash client d = Inr d' \<and> users d' = users_found client d"
  using users_fields_complete [OF assms(2), of "[]" "[]" "[]" "[]"]
  by (simp add: usersDataRead_def lookup_ignore [OF assms(1)] usersDataRead_finish_def assms(1))

lemmas users_defs =
  usersDataRead_def usersDataRead_lookup_def usersDataRead_finish_def
  one_user_client_def by_object_ids_def alice_def users_found_def found_by_id_def
  users_requested_def lookup_missing_def user_complete_def

text \<open>
  C8, as stated: with \<^verbatim>\<open>ignore_missing\<close> set, the read succeeds with only the users
  found. It does not when a user that was found has a null ID: the guard at line 197
  returns an error, whatever the flag.
\<close>

theorem ignore_missing_counterexample:
  "ignore_missing (by_object_ids [''u1''] True) \<and>
   users_Get (one_user_client (alice\<lparr>user_ID := None\<rparr>)) ''u1''
     = Inr (alice\<lparr>user_ID := None\<rparr>) \<and>
   usersDataRead (\<lambda>s. s) (one_user_client (alice\<lparr>user_ID := None\<rparr>))
       (by_object_ids [''u1''] True)
     = Inl (NullIdOrUpn (alice\<lparr>user_ID := None\<rparr>))"
  by (simp add: users_defs)

text \<open>
  C8, amended. With \<^verbatim>\<open>ignore_missing\<close> set, every lookup that fails or returns no user
  is skipped (the lookup phase returns exactly the users found, never an error), the count
  check is bypassed (the rest of the read does not depend on the expected count), and the
  read succeeds with only the users found whenever each of them has an ID, a user principal
  name and a mail nickname. With \<^verbatim>\<open>ignore_missing\<close> unset, the read returns an error
  whenever some lookup fails or returns no user, or the number of users found differs from
  the number requested, and the count check is fatal. The count check of the group lookup,
  which has no flag, is always fatal.
\<close>

theorem ignore_missing_semantics:
  "(ignore_missing d \<longrightarrow>
      usersDataRead_lookup client d = Inr (users_found client d, users_requested d) \<and>
      usersDataRead_finish hash d us n = usersDataRead_finish hash d us (length us) \<and>
      ((\<forall>u \<in> set (users_found client d). user_complete u) \<longrightarrow>
         (\<exists>d'. usersDataRead hash client d = Inr d' \<and> users d' = users_found client d)))
   \<and> (\<not> ignore_missing d \<longrightarrow>
        (lookup_missing client d \<or> length (users_found client d) \<noteq> users_requested d \<longrightarrow>
           isl (usersDataRead hash client d)) \<and>
        (length us \<noteq> n \<longrightarrow>
           usersDataRead_finish hash d us n = Inl (UnexpectedNumberOfUsers (length us) n)))
   \<and> (length gs \<noteq> n \<longrightarrow>
        GroupsDataRead_finish hash gd gs n = Inl (UnexpectedNumberOfGroups (length gs) n))"
proof (intro conjI impI)
  assume "ignore_missing d"
  then show "usersDataRead_lookup client d = Inr (users_found client d, users_requested d)"
    by (rule lookup_ignore)
  show "usersDataRead_finish hash d us n = usersDataRead_finish hash d us (length us)"
    using \<open>ignore_missing d\<close> by (simp add: usersDataRead_finish_def)
  assume "\<forall>u \<in> set (users_found client d). user_complete u"
  with \<open>ignore_missing d\<close>
  show "\<exists>d'. usersDataRead hash client d = Inr d' \<and> users d' = users_found client d"
    by (rule read_ignore)
next
  assume "\<not> ignore_missing d"
    and "lookup_missing client d \<or> length (users_found client d) \<noteq> users_requested d"
  then show "isl (usersDataRead hash client d)"
    using read_strict count_mismatch_missing by blast
next
  assume "\<not> ignore_missing d" and "length us \<noteq> n"
  then show "usersDataRead_finish hash d us n = Inl (UnexpectedNumberOfUsers (length us) n)"
    by (simp add: usersDataRead_finish_def)
next
  assume "length gs \<noteq> n"
  then show "GroupsDataRead_finish hash gd gs n = Inl (UnexpectedNumberOfGroups (length gs) n)"
    by (simp add: GroupsDataRead_finish_def)
qed

theorem ignore_missing_semantics_witness:
  "(ignore_missing (by_object_ids [''u1'', ''u2''] True) \<and>
    users_found (one_user_client alice) (by_object_ids [''u1'', ''u2''] True) = [alice] \<and>
    user_complete alice \<and>
    usersDataRead_lookup (one_user_client alice) (by_object_ids [''u1'', ''u2''] True)
      = Inr ([alice], 2) \<and>
    (\<exists>d'. usersDataRead (\<lambda>s. s) (one_user_client alice) (by_object_ids [''u1'', ''u2''] True)
             = Inr d' \<and> users d' = [alice]))
   \<and> (\<not> ignore_missing (by_object_ids [''u1'', ''u2''] False) \<and>
       lookup_missing (one_user_client alice) (by_object_ids [''u1'', ''u2''] False) \<and>
       isl (usersDataRead (\<lambda>s. s) (one_user_client alice) (by_object_ids [''u1'', ''u2''] False)) \<and>
       length [alice] \<noteq> 2 \<and>
       usersDataRead_finish (\<lambda>s. s) (by_object_ids [''u1'', ''u2''] False) [alice] 2
         = Inl (UnexpectedNumberOfUsers 1 2))
   \<and> (length ([] :: ADGroup list) \<noteq> 1 \<and>
       GroupsDataRead_finish (\<lambda>s. s) \<lparr>gd_Id = [], gd_object_ids = [''g1''], names = []\<rparr> [] 1
         = Inl (UnexpectedNumberOfGroups 0 1))"
proof -
  let ?c = "one_user_client alice"
  let ?t = "by_object_ids [''u1'', ''u2''] True"
  let ?f = "by_object_ids [''u1'', ''u2''] False"
  let ?g = "\<lparr>gd_Id = [], gd_object_ids = [''g1''], names = []\<rparr>"
  have i: "ignore_missing ?t" "\<not> ignore_missing ?f"
    by (simp_all add: by_object_ids_def)
  have f: "users_found ?c ?t = [alice]"
    by (simp add: users_found_def found_by_id_def one_user_client_def by_object_ids_def)
  have r: "users_requested ?t = 2"
    by (simp add: users_requested_def by_object_ids_def)
  have c: "user_complete alice"
    by (simp add: user_complete_def alice_def)
  have m: "lookup_missing ?c ?f"
    by (simp add: lookup_missing_def one_user_client_def by_object_ids_def)
  have a: "\<forall>u \<in> set (users_found ?c ?t). user_complete u"
    using f c by simp
  note t1 = ignore_missing_semantics [of ?t ?c "\<lambda>s. s" "[]" 0 "[]" ?g,
      THEN conjunct1, THEN mp, OF i(1)]
  note t1a = t1 [THEN conjunct1]
  note t1b = t1 [THEN conjunct2, THEN conjunct2, THEN mp, OF a]
  note t2 = ignore_missing_semantics [of ?f ?c "\<lambda>s. s" "[alice]" 2 "[]" ?g,
      THEN conjunct2, THEN conjunct1, THEN mp, OF i(2)]
  note t2a = t2 [THEN conjunct1, THEN mp, OF disjI1 [OF m]]
  have l: "length [alice] \<noteq> 2" by simp
  note t2b = t2 [THEN conjunct2, THEN mp, OF l]
  have lg: "length ([] :: ADGroup list) \<noteq> 1" by simp
  note t3 = ignore_missing_semantics [of ?f ?c "\<lambda>s. s" "[]" 1 "[]" ?g,
      THEN conjunct2, THEN conjunct2, THEN mp, OF lg]
  from i f r c m t1a t1b t2a t2b t3 show ?thesis by simp
qed

section \<open>The unguarded mail nickname\<close>

lemma users_fields_nil:
  "users_fields us acc = Inl NilPointerDereference \<Longrightarrow>
   \<exists>u \<in> set us. MailNickname u = None \<and> user_ID u \<noteq> None \<and> UserPrincipalName u \<noteq> None"
  by (induction us acc rule: users_fields.induct) (auto split: option.splits)

lemma object_ids_loop_result:
  "object_ids_loop client ig vs us = Inr us' \<Longrightarrow>
   set us' \<subseteq> set us \<union> {u. \<exists>v. users_Get client v = Inr u}"
proof (induction vs arbitrary: us)
  case Nil
  then show ?case by auto
next
  case (Cons v vs)
  show ?case
    using Cons.prems Cons.IH [of us] Cons.IH [of "us @ [x]" for x]
    by (fastforce split: sum.splits if_splits)
qed

lemma object_ids_loop_error:
  "object_ids_loop client ig vs us \<noteq> Inl NilPointerDereference"
  by (induction vs arbitrary: us) (auto split: sum.splits if_splits)

lemma mail_nicknames_loop_result:
  "mail_nicknames_loop client ig vs us = Inr us' \<Longrightarrow>
   set us' \<subseteq> set us \<union> {u. \<exists>f others. users_List client f = Inr (u # others)}"
proof (induction vs arbitrary: us)
  case Nil
  then show ?case by auto
next
  case (Cons v vs)
  show ?case
    using Cons.prems Cons.IH [of us] Cons.IH [of "us @ [x]" for x]
    by (fastforce split: sum.splits if_splits list.splits)
qed

lemma mail_nicknames_loop_error:
  "mail_nicknames_loop client ig vs us \<noteq> Inl NilPointerDereference"
  by (induction vs arbitrary: us) (auto split: sum.splits if_splits list.splits)

lemma upns_loop_result:
  "upns_loop client ig vs us = Inr us' \<Longrightarrow>
   set us' \<subseteq> set us \<union> {u. \<exists>f others. users_List client f = Inr (u # others)}"
proof (induction vs arbitrary: us)
  case Nil
  then show ?case by auto
next
  case (Cons v vs)
  show ?case
    using Cons.prems Cons.IH [of us] Cons.IH [of "us @ [x]" for x]
    by (fastforce split: sum.splits if_splits list.splits)
qed

lemma upns_loop_error:
  "upns_loop client ig vs us \<noteq> Inl NilPointerDereference"
  by (induction vs arbitrary: us) (auto split: sum.splits if_splits list.splits)

lemma lookup_result:
  "usersDataRead_lookup client d = Inr (us, n) \<Longrightarrow> \<forall>u \<in> set us. returns_user client u"
  using object_ids_loop_result [of client "ignore_missing d" "object_ids d" "[]" us]
    mail_nicknames_loop_result [of client "ignore_missing d" "mail_nicknames d" "[]" us]
    upns_loop_result [of client "ignore_missing d" "user_principal_names d" "[]" us]
  by (auto simp: usersDataRead_lookup_def returns_user_def split: if_splits sum.splits)

lemma lookup_error:
  "usersDataRead_lookup client d \<noteq> Inl NilPointerDereference"
  using object_ids_loop_error [of client "ignore_missing d" "object_ids d" "[]"]
    mail_nicknames_loop_error [of client "ignore_missing d" "mail_nicknames d" "[]"]
    upns_loop_error [of client "ignore_missing d" "user_principal_names d" "[]"]
  by (auto simp: usersDataRead_lookup_def split: if_splits sum.splits)

lemma read_nil_only:
  assumes "usersDataRead hash client d = Inl NilPointerDereference"
  shows "\<exists>u. returns_user client u \<and> MailNickname u = None \<and>
             user_ID u \<noteq> None \<and> UserPrincipalName u \<noteq> None"
proof (cases "usersDataRead_lookup client d")
  case (Inl e)
  with assms lookup_error [of client d] show ?thesis
    by (simp add: usersDataRead_def)
next
  case (Inr p)
  obtain us n where p: "p = (us, n)" by (cases p)
  from assms Inr p have "users_fields us ([], [], [], []) = Inl NilPointerDereference"
    by (auto simp: usersDataRead_def usersDataRead_finish_def split: if_splits sum.splits)
  then obtain u where "u \<in> set us" "MailNickname u = None" "user_ID u \<noteq> None"
    "UserPrincipalName u \<noteq> None"
    using users_fields_nil by blast
  moreover have "returns_user client u"
    using lookup_result [of client d us n] Inr p \<open>u \<in> set us\<close> by simp
  ultimately show ?thesis by blast
qed

text \<open>
  C10: \<^verbatim>\<open>usersDataRead\<close> is free of the nil dereference only when every user that
  the service returns has a mail nickname. First conjunct: when every returned user has
  one, the read never ends in the dereference of a nil pointer. Second conjunct: a read
  that ends there was handed a user with no mail nickname whose ID and user principal name
  are set, the two fields the guard looks at. The remaining conjuncts exhibit such a
  response: a user with ID and user principal name and no mail nickname, on which the read
  ends in the dereference.
\<close>

theorem usersDataRead_nil_MailNickname:
  "((\<forall>u. returns_user client u \<longrightarrow> MailNickname u \<noteq> None) \<longrightarrow>
      usersDataRead hash client d \<noteq> Inl NilPointerDereference)
   \<and> (usersDataRead hash client d = Inl NilPointerDereference \<longrightarrow>
        (\<exists>u. returns_user client u \<and> MailNickname u = None \<and>
             user_ID u \<noteq> None \<and> UserPrincipalName u \<noteq> None))
   \<and> returns_user (one_user_client (alice\<lparr>MailNickname := None\<rparr>)) (alice\<lparr>MailNickname := None\<rparr>)
   \<and> user_ID (alice\<lparr>MailNickname := None\<rparr>) \<noteq> None
   \<and> UserPrincipalName (alice\<lparr>MailNickname := None\<rparr>) \<noteq> None
   \<and> MailNickname (alice\<lparr>MailNickname := None\<rparr>) = None
   \<and> usersDataRead hash (one_user_client (alice\<lparr>MailNickname := None\<rparr>))
        (by_object_ids [''u1''] False) = Inl NilPointerDereference"
proof (intro conjI impI)
  assume "usersDataRead hash client d = Inl NilPointerDereference"
  then show "\<exists>u. returns_user client u \<and> MailNickname u = None \<and>
             user_ID u \<noteq> None \<and> UserPrincipalName u \<noteq> None"
    by (rule read_nil_only)
next
  assume "\<forall>u. returns_user client u \<longrightarrow> MailNickname u \<noteq> None"
  then show "usersDataRead hash client d \<noteq> Inl NilPointerDereference"
    using read_nil_only [of hash client d] by blast
next
  show "returns_user (one_user_client (alice\<lparr>MailNickname := None\<rparr>)) (alice\<lparr>MailNickname := None\<rparr>)"
    by (auto simp: returns_user_def one_user_client_def)
qed (simp_all add: users_defs)

theorem usersDataRead_nil_MailNickname_witness:
  "(\<not> (\<exists>u. returns_user (one_user_client alice) u \<and> MailNickname u = None) \<and>
    usersDataRead (\<lambda>s. s) (one_user_client alice) (by_object_ids [''u1''] False)
      \<noteq> Inl NilPointerDereference)
   \<and> (usersDataRead (\<lambda>s. s) (one_user_client (alice\<lparr>MailNickname := None\<rparr>))
         (by_object_ids [''u1''] False) = Inl NilPointerDereference \<and>
       (\<exists>u. returns_user (one_user_client (alice\<lparr>MailNickname := None\<rparr>)) u \<and>
            MailNickname u = None \<and> user_ID u \<noteq> None \<and> UserPrincipalName u \<noteq> None))"
proof -
  have a: "\<forall>u. returns_user (one_user_client alice) u \<longrightarrow> MailNickname u \<noteq> None"
    by (auto simp: returns_user_def one_user_client_def alice_def split: if_splits)
  have n: "usersDataRead (\<lambda>s. s) (one_user_client (alice\<lparr>MailNickname := None\<rparr>))
         (by_object_ids [''u1''] False) = Inl NilPointerDereference"
    by (simp add: users_defs)
  note t1 = usersDataRead_nil_MailNickname
    [of "one_user_client alice" "\<lambda>s. s" "by_object_ids [''u1''] False",
     THEN conjunct1, THEN mp, OF a]
  note t2 = usersDataRead_nil_MailNickname
    [of "one_user_client (alice\<lparr>MailNickname := None\<rparr>)" "\<lambda>s. s" "by_object_ids [''u1''] False",
     THEN conjunct2, THEN conjunct1, THEN mp, OF n]
  from a n t1 t2 show ?thesis by blast
qed

end
